theory Spec2Isabelle
  imports Main "HOL-Library.Sublist"
begin

section \<open>Python objects seen by the printers\<close>

text \<open>
  The module \<^verbatim>\<open>holoviews/core/pprint.py\<close> reads objects through attribute probes
  (\<^verbatim>\<open>hasattr\<close>, \<^verbatim>\<open>getattr\<close>) and never constructs them.  An object is therefore
  modelled by the attributes the module looks at; an attribute that the object does
  not define is \<open>None\<close> (or \<open>False\<close> for \<open>main\<close>, of which only the presence is
  tested), and reading it raises \<open>AttributeError\<close> as in Python.
\<close>

datatype pyerr = AttributeError | IndexError | KeyError | TypeError

datatype Dimension = Dimension (name: string)

datatype node =
    PyNone
  | Obj (type_name: string)
        (children: "(string list \<times> node) list option")
        (main: bool)
        (deep_indexable: "bool option")
        (kdims: "Dimension list option")
        (vdims: "Dimension list option")
        (data: "node list option")

text \<open>
  \<open>type_name\<close> is \<^verbatim>\<open>type(node).__name__\<close>.  \<open>children\<close> holds the items of an
  attribute tree in insertion order, each key being the tuple of path components that
  \<^verbatim>\<open>node.keys()\<close> yields.  \<open>deep_indexable\<close> is the truth value of the attribute
  \<^verbatim>\<open>_deep_indexable\<close>.  \<open>data\<close> is \<^verbatim>\<open>list(node.data.values())\<close>, the entries of the
  ordered dictionary of a mapping or of an adjoint layout.
\<close>

fun hasattr_children :: "node \<Rightarrow> bool" where
  "hasattr_children PyNone = False"
| "hasattr_children (Obj tn ch m di kd vd da) = (ch \<noteq> None)"

fun hasattr_main :: "node \<Rightarrow> bool" where
  "hasattr_main PyNone = False"
| "hasattr_main (Obj tn ch m di kd vd da) = m"

text \<open>\<^verbatim>\<open>getattr(node, '_deep_indexable', False)\<close>: a missing attribute reads as false.\<close>

fun getattr_deep_indexable_default :: "node \<Rightarrow> bool" where
  "getattr_deep_indexable_default PyNone = False"
| "getattr_deep_indexable_default (Obj tn ch m di kd vd da) =
     (case di of None \<Rightarrow> False | Some b \<Rightarrow> b)"

text \<open>\<^verbatim>\<open>getattr(node, '_deep_indexable')\<close>: a missing attribute raises.\<close>

fun getattr_deep_indexable :: "node \<Rightarrow> pyerr + bool" where
  "getattr_deep_indexable PyNone = Inl AttributeError"
| "getattr_deep_indexable (Obj tn ch m di kd vd da) =
     (case di of None \<Rightarrow> Inl AttributeError | Some b \<Rightarrow> Inr b)"

fun getattr_kdims :: "node \<Rightarrow> pyerr + Dimension list" where
  "getattr_kdims PyNone = Inl AttributeError"
| "getattr_kdims (Obj tn ch m di kd vd da) =
     (case kd of None \<Rightarrow> Inl AttributeError | Some ds \<Rightarrow> Inr ds)"

fun getattr_vdims :: "node \<Rightarrow> pyerr + Dimension list" where
  "getattr_vdims PyNone = Inl AttributeError"
| "getattr_vdims (Obj tn ch m di kd vd da) =
     (case vd of None \<Rightarrow> Inl AttributeError | Some ds \<Rightarrow> Inr ds)"

fun getattr_data :: "node \<Rightarrow> pyerr + node list" where
  "getattr_data PyNone = Inl AttributeError"
| "getattr_data (Obj tn ch m di kd vd da) =
     (case da of None \<Rightarrow> Inl AttributeError | Some ns \<Rightarrow> Inr ns)"

subsection \<open>String helpers of Python\<close>

text \<open>
  Strings are lists of characters; the names of types, dimensions and paths are taken
  to be ASCII, so that \<open>length\<close> is Python's \<^verbatim>\<open>len\<close>.
\<close>

text \<open>\<^verbatim>\<open>sep.join(xs)\<close>.\<close>

fun join :: "string \<Rightarrow> string list \<Rightarrow> string" where
  "join sep [] = []"
| "join sep [x] = x"
| "join sep (x # y # ys) = x @ sep @ join sep (y # ys)"

text \<open>\<^verbatim>\<open>s.ljust(width)\<close>: spaces are added on the right up to \<open>width\<close> characters.\<close>

definition ljust :: "string \<Rightarrow> nat \<Rightarrow> string" where
  "ljust s width = s @ replicate (width - length s) (CHR '' '')"

text \<open>\<^verbatim>\<open>n * s\<close> for an integer \<open>n\<close>: the empty string when \<open>n\<close> is not positive.\<close>

definition str_times :: "int \<Rightarrow> string \<Rightarrow> string" where
  "str_times n s = concat (replicate (nat n) s)"

subsection \<open>The attribute tree's accessors\<close>

text \<open>
  Modelled from the spec: the class of attribute trees (\<^verbatim>\<open>keys\<close>, \<^verbatim>\<open>get\<close>) is not
  part of the module.  A group node is a mapping from dotted string paths to child
  nodes in declaration order; \<^verbatim>\<open>get\<close> returns the child stored under a dotted path,
  and its default \<^verbatim>\<open>None\<close> for a path that is not there.
\<close>

fun lookup_path :: "(string list \<times> node) list \<Rightarrow> string \<Rightarrow> node" where
  "lookup_path [] p = PyNone"
| "lookup_path ((k, c) # kcs) p = (if join ''.'' k = p then c else lookup_path kcs p)"

fun keys :: "node \<Rightarrow> pyerr + string list list" where
  "keys PyNone = Inl AttributeError"
| "keys (Obj tn ch m di kd vd da) =
     (case ch of None \<Rightarrow> Inl AttributeError | Some kcs \<Rightarrow> Inr (map fst kcs))"

fun get :: "node \<Rightarrow> string \<Rightarrow> pyerr + node" where
  "get PyNone p = Inl AttributeError"
| "get (Obj tn ch m di kd vd da) p =
     (case ch of None \<Rightarrow> Inl AttributeError | Some kcs \<Rightarrow> Inr (lookup_path kcs p))"

text \<open>The comprehension \<^verbatim>\<open>[node.get(child) for child in attrpaths]\<close>.\<close>

fun get_each :: "node \<Rightarrow> string list \<Rightarrow> pyerr + node list" where
  "get_each node [] = Inr []"
| "get_each node (child # rest) =
     (case get node child of
        Inl e \<Rightarrow> Inl e
      | Inr c \<Rightarrow> (case get_each node rest of Inl e \<Rightarrow> Inl e | Inr cs \<Rightarrow> Inr (c # cs)))"

section \<open>PrettyPrinter\<close>

definition tab :: string where
  "tab = ''   ''"

text \<open>\<^verbatim>\<open>type_formatter = ':{type}'\<close>, applied to the name of the node's type.\<close>

definition type_formatter :: "string \<Rightarrow> string" where
  "type_formatter ty = '':'' @ ty"

fun component_type :: "node \<Rightarrow> string" where
  "component_type PyNone = ''''"
| "component_type (Obj tn ch m di kd vd da) = type_formatter tn"

definition serialize :: "(int \<times> string) list \<Rightarrow> string" where
  "serialize lines = join [CHR 0x0A] (map (\<lambda>(level, line). str_times level tab @ line) lines)"

definition shift :: "(int \<times> string) list \<Rightarrow> int \<Rightarrow> (int \<times> string) list" where
  "shift lines sh = map (\<lambda>(lvl, line). (lvl + sh, line)) lines"

text \<open>
  \<^verbatim>\<open>max(len(p) for p in items) if len(items) > 1 else len(items[0])\<close>; the index
  raises on an empty list.
\<close>

definition padding :: "string list \<Rightarrow> pyerr + nat" where
  "padding items =
     (if length items > 1 then Inr (Max (set (map length items)))
      else (case items of [] \<Rightarrow> Inl IndexError | p # ps \<Rightarrow> Inr (length p)))"

text \<open>
  The padded string of \<^verbatim>\<open>info.ljust(padding)\<close> is dropped: Python strings are
  immutable and the statement does not assign its value.
\<close>

definition element_info ::
  "node \<Rightarrow> node list \<Rightarrow> int \<Rightarrow> bool \<Rightarrow> pyerr + (int \<times> (int \<times> string) list)" where
  "element_info node siblings level value_dims =
     (let info = component_type node in
      case (if siblings \<noteq> []
            then (case padding (map component_type siblings) of
                    Inl e \<Rightarrow> Inl e
                  | Inr pad \<Rightarrow> (let dropped = ljust info pad in Inr ()))
            else Inr ()) of
        Inl e \<Rightarrow> Inl e
      | Inr u \<Rightarrow>
         (case getattr_kdims node of
            Inl e \<Rightarrow> Inl e
          | Inr kd \<Rightarrow>
             (let info = (if length kd \<ge> 1
                          then info @ tab @ ''['' @ join '','' (map name kd) @ '']''
                          else info) in
              case (if value_dims
                    then (case getattr_vdims node of
                            Inl e \<Rightarrow> Inl e
                          | Inr vd \<Rightarrow>
                             Inr (if length vd \<ge> 1
                                  then info @ tab @ ''('' @ join '','' (map name vd) @ '')''
                                  else info))
                    else Inr info) of
                Inl e \<Rightarrow> Inl e
              | Inr info \<Rightarrow> Inr (level, [(level, info)]))))"

text \<open>
  The printers call each other: \<open>recurse\<close> asks \<open>node_info\<close> for the lines of a node
  and then descends into the children of an attribute tree; \<open>adjointlayout_info\<close> and
  \<open>ndmapping_info\<close> call back into \<open>recurse\<close>.  The two \<^verbatim>\<open>for\<close> loops are
  \<open>recurse_children\<close> (the loop of \<open>recurse\<close> over \<open>attrpaths\<close>, accumulating in
  \<open>lines\<close>) and \<open>recurse_components\<close> (the loop of \<open>adjointlayout_info\<close> over
  \<^verbatim>\<open>node.data.values()\<close>, accumulating in \<open>additional_lines\<close>).  A call that leaves
  out \<^verbatim>\<open>attrpath\<close>, \<^verbatim>\<open>attrpaths\<close>, \<^verbatim>\<open>siblings\<close> or \<^verbatim>\<open>value_dims\<close> passes the defaults
  \<^verbatim>\<open>None\<close>, \<^verbatim>\<open>[]\<close>, \<^verbatim>\<open>[]\<close> and \<^verbatim>\<open>True\<close>.
\<close>

function
  recurse :: "node \<Rightarrow> string option \<Rightarrow> string list \<Rightarrow> node list \<Rightarrow> int \<Rightarrow> bool
                \<Rightarrow> pyerr + (int \<times> string) list"
and recurse_children :: "node \<Rightarrow> string list \<Rightarrow> string list \<Rightarrow> node list \<Rightarrow> int \<Rightarrow> bool
                \<Rightarrow> (int \<times> string) list \<Rightarrow> pyerr + (int \<times> string) list"
and node_info :: "node \<Rightarrow> string option \<Rightarrow> string list \<Rightarrow> node list \<Rightarrow> int \<Rightarrow> bool
                \<Rightarrow> pyerr + (int \<times> (int \<times> string) list)"
and adjointlayout_info :: "node \<Rightarrow> node list \<Rightarrow> int \<Rightarrow> bool
                \<Rightarrow> pyerr + (int \<times> (int \<times> string) list)"
and recurse_components :: "node list \<Rightarrow> int \<Rightarrow> (int \<times> string) list
                \<Rightarrow> pyerr + (int \<times> string) list"
and ndmapping_info :: "node \<Rightarrow> node list \<Rightarrow> int \<Rightarrow> bool
                \<Rightarrow> pyerr + (int \<times> (int \<times> string) list)"
where
  "recurse node attrpath attrpaths siblings level value_dims =
     (case node_info node attrpath attrpaths siblings level value_dims of
        Inl e \<Rightarrow> Inl e
      | Inr (level', lines) \<Rightarrow>
         (case (if hasattr_children node
                then (case keys node of
                        Inl e \<Rightarrow> Inl e
                      | Inr ks \<Rightarrow> Inr (map (join ''.'') ks))
                else Inr []) of
            Inl e \<Rightarrow> Inl e
          | Inr attrpaths' \<Rightarrow>
             (case get_each node attrpaths' of
                Inl e \<Rightarrow> Inl e
              | Inr siblings' \<Rightarrow>
                  recurse_children node attrpaths' attrpaths' siblings'
                    (level' + 1) value_dims lines)))"
| "recurse_children node [] attrpaths siblings level value_dims lines = Inr lines"
| "recurse_children node (attrpath # rest) attrpaths siblings level value_dims lines =
     (case get node attrpath of
        Inl e \<Rightarrow> Inl e
      | Inr child \<Rightarrow>
         (case recurse child (Some attrpath) attrpaths siblings level value_dims of
            Inl e \<Rightarrow> Inl e
          | Inr more \<Rightarrow>
              recurse_children node rest attrpaths siblings level value_dims (lines @ more)))"
| "node_info node attrpath attrpaths siblings level value_dims =
     (case (if hasattr_children node
            then Inr (level, [(level, component_type node)])
            else if hasattr_main node
            then adjointlayout_info node siblings level value_dims
            else if getattr_deep_indexable_default node
            then ndmapping_info node siblings level value_dims
            else element_info node siblings level value_dims) of
        Inl e \<Rightarrow> Inl e
      | Inr (lvl, lines) \<Rightarrow>
         (case attrpath of
            None \<Rightarrow> Inr (lvl, lines)
          | Some path \<Rightarrow>
             (case padding attrpaths of
                Inl e \<Rightarrow> Inl e
              | Inr pad \<Rightarrow>
                 (case lines of
                    [] \<Rightarrow> Inl IndexError
                  | (fst_lvl, fst_line) # others \<Rightarrow>
                      Inr (lvl, (fst_lvl, ''.'' @ ljust path pad @ '' '' @ fst_line) # others)))))"
| "adjointlayout_info node siblings level value_dims =
     (let first_line = component_type node;
          lines = [(level, first_line)] in
      case getattr_data node of
        Inl e \<Rightarrow> Inl e
      | Inr components \<Rightarrow>
         (case recurse_components components level [] of
            Inl e \<Rightarrow> Inl e
          | Inr additional_lines \<Rightarrow> Inr (level, lines @ shift additional_lines 1)))"
| "recurse_components [] level additional_lines = Inr additional_lines"
| "recurse_components (component # rest) level additional_lines =
     (case recurse component None [] [] level True of
        Inl e \<Rightarrow> Inl e
      | Inr more \<Rightarrow> recurse_components rest level (additional_lines @ more))"
| "ndmapping_info node siblings level value_dims =
     (case getattr_kdims node of
        Inl e \<Rightarrow> Inl e
      | Inr kd \<Rightarrow>
         (let key_dim_info = ''['' @ join '','' (map name kd) @ '']'';
              first_line = component_type node @ tab @ key_dim_info;
              lines = [(level, first_line)] in
          case getattr_data node of
            Inl e \<Rightarrow> Inl e
          | Inr entries \<Rightarrow>
             (if length entries = 0 then Inr (level, lines)
              else
                (let last = List.last entries in
                 case (if hasattr_children last
                       then (case recurse last None [] [] level True of
                               Inl e \<Rightarrow> Inl e
                             | Inr additional_lines \<Rightarrow> Inr (level, additional_lines))
                       else
                         (case (if last \<noteq> PyNone then getattr_deep_indexable last
                                else Inr False) of
                            Inl e \<Rightarrow> Inl e
                          | Inr deep \<Rightarrow>
                             (if deep then ndmapping_info last [] level value_dims
                              else (case element_info last siblings level value_dims of
                                      Inl e \<Rightarrow> Inl e
                                    | Inr (unused, additional_lines) \<Rightarrow>
                                        Inr (level, additional_lines))))) of
                   Inl e \<Rightarrow> Inl e
                 | Inr (level', additional_lines) \<Rightarrow>
                     Inr (level', lines @ shift additional_lines 1)))))"
  by pat_completeness auto

lemma size_lookup_path:
  "size (lookup_path kcs p) \<le> size_list (size_prod (\<lambda>k. 0) size) kcs"
  by (induction kcs) auto

lemma size_get [termination_simp]:
  "get node p = Inr child \<Longrightarrow> size child < size node"
proof (cases node)
  case PyNone
  then show "get node p = Inr child \<Longrightarrow> size child < size node" by simp
next
  case (Obj tn ch m di kd vd da)
  assume g: "get node p = Inr child"
  from g Obj obtain kcs where ch: "ch = Some kcs" and c: "child = lookup_path kcs p"
    by (auto split: option.splits)
  have "size child \<le> size_list (size_prod (\<lambda>k. 0) size) kcs"
    unfolding c by (rule size_lookup_path)
  then show "size child < size node"
    using Obj ch by simp
qed

lemma size_last_data [termination_simp]:
  assumes "getattr_data node = Inr entries" and "entries \<noteq> []"
  shows "size (List.last entries) < size node"
proof -
  have "size (List.last entries) \<le> size_list size entries"
    using assms(2) by (induction entries) auto
  moreover have "size_list size entries < size node"
    using assms(1) by (cases node) (auto split: option.splits)
  ultimately show ?thesis by simp
qed

lemma size_data [termination_simp]:
  "getattr_data node = Inr entries \<Longrightarrow> size_list size entries < size node"
  by (cases node) (auto split: option.splits)

termination recurse
  by (relation "inv_image (less_than <*lex*> less_than <*lex*> less_than)
       (\<lambda>x. case x of
          Inl (Inl (node, attrpath, attrpaths, siblings, level, value_dims)) \<Rightarrow>
            (size node, 3::nat, 0::nat)
        | Inl (Inr (Inl (node, todo, attrpaths, siblings, level, value_dims, lines))) \<Rightarrow>
            (size node, 0, length todo)
        | Inl (Inr (Inr (node, attrpath, attrpaths, siblings, level, value_dims))) \<Rightarrow>
            (size node, 2, 0)
        | Inr (Inl (node, siblings, level, value_dims)) \<Rightarrow> (size node, 1, 0)
        | Inr (Inr (Inl (components, level, additional_lines))) \<Rightarrow>
            (size_list size components, 4, 0)
        | Inr (Inr (Inr (node, siblings, level, value_dims))) \<Rightarrow> (size node, 1, 0))")
     (auto simp: size_get size_last_data size_data)

declare recurse.simps [simp del] recurse_children.simps [simp del] node_info.simps [simp del]
  adjointlayout_info.simps [simp del] recurse_components.simps [simp del]
  ndmapping_info.simps [simp del]

definition pprint :: "node \<Rightarrow> pyerr + string" where
  "pprint node =
     (case recurse node None [] [] 0 True of
        Inl e \<Rightarrow> Inl e
      | Inr lines \<Rightarrow> Inr (serialize lines))"

section \<open>Regular expressions\<close>

text \<open>
  The module calls \<^verbatim>\<open>re.search(pattern, string)\<close> and
  \<^verbatim>\<open>re.sub(pattern, repl, string, flags=re.IGNORECASE)\<close> of Python's standard library
  with a pattern the caller supplies.  The two functions are taken as a parameter, for
  patterns that compile: \<open>re_search\<close> returns the span of the first match or \<open>None\<close>,
  \<open>re_sub\<close> replaces every match by the replacement computed from the matched text.
  Each takes the flags of the call; a call that gives no flags passes \<open>[]\<close>.
\<close>

datatype re_flag = IGNORECASE

record re_module =
  re_search :: "re_flag list \<Rightarrow> string \<Rightarrow> string \<Rightarrow> (nat \<times> nat) option"
  re_sub :: "re_flag list \<Rightarrow> string \<Rightarrow> (string \<Rightarrow> string) \<Rightarrow> string \<Rightarrow> string"

text \<open>
  For a pattern without metacharacters the two functions are plain substring search
  and replacement; \<open>literal_re\<close> is the module on such patterns.  With \<open>IGNORECASE\<close> the
  ASCII letters are compared without regard to case.
\<close>

definition lower :: "char \<Rightarrow> char" where
  "lower c =
     (case map_of (zip ''ABCDEFGHIJKLMNOPQRSTUVWXYZ'' ''abcdefghijklmnopqrstuvwxyz'') c of
        None \<Rightarrow> c
      | Some l \<Rightarrow> l)"

fun find_from :: "string \<Rightarrow> string \<Rightarrow> nat \<Rightarrow> (nat \<times> nat) option" where
  "find_from pat [] i = (if pat = [] then Some (i, i) else None)"
| "find_from pat (c # cs) i =
     (if prefix pat (c # cs) then Some (i, i + length pat) else find_from pat cs (Suc i))"

definition literal_search :: "re_flag list \<Rightarrow> string \<Rightarrow> string \<Rightarrow> (nat \<times> nat) option" where
  "literal_search flags pat s =
     (if IGNORECASE \<in> set flags then find_from (map lower pat) (map lower s) 0
      else find_from pat s 0)"

function replace_from :: "bool \<Rightarrow> string \<Rightarrow> (string \<Rightarrow> string) \<Rightarrow> string \<Rightarrow> string" where
  "replace_from ic pat repl [] = (if pat = [] then repl [] else [])"
| "replace_from ic pat repl (c # cs) =
     (if pat = [] then repl [] @ c # replace_from ic pat repl cs
      else if (if ic then prefix (map lower pat) (map lower (c # cs)) else prefix pat (c # cs))
      then repl (take (length pat) (c # cs))
             @ replace_from ic pat repl (drop (length pat) (c # cs))
      else c # replace_from ic pat repl cs)"
  by pat_completeness auto
termination
  by (relation "measure (\<lambda>(ic, pat, repl, s). length s)") (auto simp: neq_Nil_conv)

definition literal_sub ::
  "re_flag list \<Rightarrow> string \<Rightarrow> (string \<Rightarrow> string) \<Rightarrow> string \<Rightarrow> string" where
  "literal_sub flags pat repl s = replace_from (IGNORECASE \<in> set flags) pat repl s"

definition literal_re :: re_module where
  "literal_re = \<lparr>re_search = literal_search, re_sub = literal_sub\<rparr>"

section \<open>ParamFilter\<close>

text \<open>
  A parameter object, of which the module reads the documentation string and the
  \<^verbatim>\<open>constant\<close> flag (\<open>is_constant\<close>), and a parameterized class or instance: \<open>is_type\<close> is
  \<^verbatim>\<open>isinstance(obj, type)\<close>, \<open>class_name\<close> the \<^verbatim>\<open>__name__\<close> of the class (of the
  instance's class), \<open>params\<close> the items of \<^verbatim>\<open>obj.params()\<close> and \<open>param_values\<close> the
  pairs of \<^verbatim>\<open>obj.get_param_values()\<close>.
\<close>

record Parameter =
  doc :: string
  is_constant :: bool

record 'v Parameterized =
  is_type :: bool
  class_name :: string
  params :: "(string \<times> Parameter) list"
  param_values :: "(string \<times> 'v) list"

text \<open>
  The library \<^verbatim>\<open>param\<close> is not part of the module.  Its base class
  \<^verbatim>\<open>param.Parameterized\<close> declares one parameter, the constant \<^verbatim>\<open>name\<close>, which every
  class built on it has; \<^verbatim>\<open>type(name, (param.Parameterized,), attrs)\<close> is the class with
  that parameter and the parameters of \<open>attrs\<close>, an entry of \<open>attrs\<close> taking the place
  of an inherited one of the same name.  Instantiating a class gives an instance of
  its parameters, and \<^verbatim>\<open>set_param\<close> stores the given values.
\<close>

definition Parameterized_params :: "(string \<times> Parameter) list" where
  "Parameterized_params =
     [(''name'', \<lparr>doc = ''String identifier for this object.'', is_constant = True\<rparr>)]"

definition new_type :: "string \<Rightarrow> (string \<times> Parameter) list \<Rightarrow> 'v Parameterized" where
  "new_type cname attrs =
     \<lparr>is_type = True, class_name = cname,
      params = [(k, v) \<leftarrow> Parameterized_params. map_of attrs k = None] @ attrs,
      param_values = []\<rparr>"

definition instantiate :: "'v Parameterized \<Rightarrow> 'v Parameterized" where
  "instantiate c = c\<lparr>is_type := False\<rparr>"

definition set_param :: "'v Parameterized \<Rightarrow> (string \<times> 'v) list \<Rightarrow> 'v Parameterized" where
  "set_param obj kvs = obj\<lparr>param_values := kvs\<rparr>"

definition regexp_filter :: "re_module \<Rightarrow> string \<Rightarrow> string \<Rightarrow> Parameter \<Rightarrow> bool" where
  "regexp_filter re pattern pname p =
     (let name_match = re_search re [] pattern pname in
      if name_match \<noteq> None then True
      else (let doc_match = re_search re [] pattern (doc p) in
            if doc_match \<noteq> None then True
            else False))"

definition ParamFilter ::
  "'v Parameterized \<Rightarrow> (string \<Rightarrow> Parameter \<Rightarrow> bool) option \<Rightarrow> 'v Parameterized" where
  "ParamFilter obj filter_fn =
     (case filter_fn of
        None \<Rightarrow> obj
      | Some f \<Rightarrow>
         (let cname = class_name obj;
              class_proxy = new_type cname [(k, v) \<leftarrow> params obj. f k v]
          in if is_type obj then class_proxy
             else
               (let instance_params = param_values obj;
                    obj_proxy = instantiate class_proxy;
                    filtered = [(k, v) \<leftarrow> instance_params.
                                  (case map_of (params obj_proxy) k of
                                     None \<Rightarrow> False
                                   | Some p \<Rightarrow> \<not> is_constant p)]
                in set_param obj_proxy filtered)))"

section \<open>InfoPrinter\<close>

text \<open>
  \<^verbatim>\<open>ansi_escape.sub('', s)\<close> for \<^verbatim>\<open>ansi_escape = re.compile(r'\x1b[^m]*m')\<close>: a match
  starts at an escape character and ends at the first \<^verbatim>\<open>m\<close> after it; every match
  is removed.
\<close>

function ansi_escape_sub :: "string \<Rightarrow> string" where
  "ansi_escape_sub [] = []"
| "ansi_escape_sub (c # cs) =
     (if c = CHR 0x1B \<and> CHR ''m'' \<in> set cs
      then ansi_escape_sub (tl (dropWhile (\<lambda>x. x \<noteq> CHR ''m'') cs))
      else c # ansi_escape_sub cs)"
  by pat_completeness auto
termination
proof (relation "measure length")
  fix c :: char and cs :: string
  have "length (tl (dropWhile (\<lambda>x. x \<noteq> CHR ''m'') cs)) \<le> length cs"
    using length_dropWhile_le [of "\<lambda>x. x \<noteq> CHR ''m''" cs] by simp
  then show "(tl (dropWhile (\<lambda>x. x \<noteq> CHR ''m'') cs), c # cs) \<in> measure length"
    by simp
qed simp_all

text \<open>
  \<^verbatim>\<open>re.sub(pattern, '\033[43;1;30m\g<0>\x1b[0m', string, flags=re.IGNORECASE)\<close>: the
  template stands for the matched text between the two escape sequences.
\<close>

definition highlight :: "re_module \<Rightarrow> string option \<Rightarrow> string \<Rightarrow> string" where
  "highlight re pattern string =
     (case pattern of
        None \<Rightarrow> string
      | Some pat \<Rightarrow>
          re_sub re [IGNORECASE] pat
            (\<lambda>m. CHR 0x1B # ''[43;1;30m'' @ m @ CHR 0x1B # ''[0m'') string)"

text \<open>
  The parameter pager of \<^verbatim>\<open>param.ipython\<close> is a collaborator: its three entry points
  are taken as they are, and every call of one is recorded in a log, so that a result
  says which calls were made for it.
\<close>

record ('v, 'i) ParamPager =
  pager_call :: "'v Parameterized \<Rightarrow> string"
  get_param_info :: "'v Parameterized \<Rightarrow> 'i"
  param_docstrings :: "'i \<Rightarrow> string"

datatype 'v pager_event =
    Call "'v Parameterized"
  | GetParamInfo "'v Parameterized"
  | ParamDocstrings


text \<open>
  The registry of the store maps a backend and a type to a plot class or to a selector
  of several plot classes; \<open>store\<close> is \<^verbatim>\<open>cls.store.registry\<close>, and \<open>None\<close> while the
  class attribute \<^verbatim>\<open>store\<close> is \<^verbatim>\<open>None\<close>.  A type is looked up by its name.  Of a
  selector, \<^verbatim>\<open>plot_classes.values()[0]\<close> is the first class, the values of a
  dictionary being a list in the Python the statement is written for.
\<close>

datatype 'p plot_entry = PlotClass 'p | PlotSelector "'p list"

definition lookup_plot_class ::
  "(string \<rightharpoonup> (string \<rightharpoonup> 'p plot_entry)) option \<Rightarrow> string \<Rightarrow> string \<Rightarrow> pyerr + 'p option" where
  "lookup_plot_class store backend cname =
     (case store of
        None \<Rightarrow> Inl AttributeError
      | Some registry \<Rightarrow>
         (case registry backend of
            None \<Rightarrow> Inl KeyError
          | Some plots \<Rightarrow>
             (case plots cname of
                None \<Rightarrow> Inr None
              | Some (PlotClass pc) \<Rightarrow> Inr (Some pc)
              | Some (PlotSelector pcs) \<Rightarrow>
                 (case pcs of [] \<Rightarrow> Inl IndexError | pc # rest \<Rightarrow> Inr (Some pc)))))"

text \<open>
  \<open>repr\<close> is Python's \<^verbatim>\<open>repr\<close> on strings, which \<^verbatim>\<open>%r\<close> applies.  \<open>new_pager\<close> is the pager
  \<^verbatim>\<open>param.ipython.ParamPager()\<close>.  The report for an object with a plot class (the
  heading, the object, target and options blocks) is not part of this development: it
  is the parameter \<open>visual_info\<close>.
\<close>

definition info ::
  "re_module \<Rightarrow> (string \<Rightarrow> string) \<Rightarrow> (string \<rightharpoonup> (string \<rightharpoonup> 'p plot_entry)) option
     \<Rightarrow> ('v, 'i) ParamPager
     \<Rightarrow> ('v Parameterized \<Rightarrow> 'p \<Rightarrow> bool \<Rightarrow> string option \<Rightarrow> 'v pager_event list
           \<Rightarrow> (pyerr + string) \<times> 'v pager_event list)
     \<Rightarrow> 'v Parameterized \<Rightarrow> bool \<Rightarrow> string \<Rightarrow> bool \<Rightarrow> string option
     \<Rightarrow> 'v pager_event list \<Rightarrow> (pyerr + string) \<times> 'v pager_event list" where
  "info re repr store new_pager visual_info obj ansi backend visualization pattern log =
     (let isclass = is_type obj;
          cname = class_name obj
      in case lookup_plot_class store backend cname of
           Inl e \<Rightarrow> (Inl e, log)
         | Inr plot_class \<Rightarrow>
            (if \<not> visualization \<or> plot_class = None
             then
               (case (case pattern of
                        None \<Rightarrow> Inr obj
                      | Some pat \<Rightarrow>
                         (let obj = ParamFilter obj (Some (regexp_filter re pat)) in
                          if length (params obj) \<le> 1
                          then Inl (''No '' @ repr cname
                                    @ '' parameters found matching pattern '' @ repr pat)
                          else Inr obj)) of
                  Inl message \<Rightarrow> (Inr message, log)
                | Inr obj \<Rightarrow>
                   (let info = pager_call new_pager obj;
                        log = log @ [Call obj];
                        info = (if \<not> ansi then ansi_escape_sub info else info)
                    in (Inr (highlight re pattern info), log)))
             else visual_info obj (the plot_class) ansi pattern log))"

section \<open>Sample objects\<close>

text \<open>A curve over \<open>x\<close> with values \<open>y\<close>, an overlay of curves and a map of overlays.\<close>

definition curve :: node where
  "curve = Obj ''Curve'' None False (Some False)
             (Some [Dimension ''x'']) (Some [Dimension ''y'']) None"

definition overlay :: node where
  "overlay = Obj ''NdOverlay'' None False (Some True)
               (Some [Dimension ''b'']) (Some []) (Some [curve, curve])"

definition holomap :: node where
  "holomap = Obj ''HoloMap'' None False (Some True)
               (Some [Dimension ''a'']) (Some []) (Some [overlay])"

text \<open>An image, a layout of images keyed by two dimensions, and a grid of such layouts.\<close>

definition image :: node where
  "image = Obj ''Image'' None False (Some False)
             (Some [Dimension ''x'', Dimension ''y'']) (Some [Dimension ''z'']) None"

definition ndlayout :: node where
  "ndlayout = Obj ''NdLayout'' None False (Some True)
                (Some [Dimension ''u'', Dimension ''v'']) (Some []) (Some [curve, image])"

definition gridspace :: node where
  "gridspace = Obj ''GridSpace'' None False (Some True)
                 (Some [Dimension ''r'']) (Some []) (Some [ndlayout, ndlayout])"

text \<open>An attribute tree with the two children \<open>a\<close> and \<open>bb\<close>.\<close>

definition layout :: node where
  "layout = Obj ''Layout'' (Some [([''a''], curve), ([''bb''], holomap)]) False (Some False)
              None None None"

text \<open>A mapping without entries.\<close>

definition empty_map :: node where
  "empty_map = Obj ''HoloMap'' None False (Some True)
                 (Some [Dimension ''t'', Dimension ''f'']) (Some []) (Some [])"

text \<open>
  An object that has dimensions and no attribute \<^verbatim>\<open>_deep_indexable\<close>, and a mapping
  that ends in it.
\<close>

definition bare :: node where
  "bare = Obj ''Table'' None False None (Some [Dimension ''k'']) (Some [Dimension ''w'']) None"

definition bare_map :: node where
  "bare_map = Obj ''HoloMap'' None False (Some True)
                (Some [Dimension ''a'']) (Some []) (Some [curve, bare])"


definition curve_class :: "unit Parameterized" where
  "curve_class =
     \<lparr>is_type = True, class_name = ''Curve'',
      params = Parameterized_params
                 @ [(''extents'', \<lparr>doc = ''Ranges of the axes'', is_constant = False\<rparr>),
                    (''group'', \<lparr>doc = ''A string describing the data'', is_constant = True\<rparr>)],
      param_values = []\<rparr>"

definition sample_pager :: "(unit, string list) ParamPager" where
  "sample_pager =
     \<lparr>pager_call = (\<lambda>obj. concat (map fst (params obj))),
      get_param_info = (\<lambda>obj. map fst (params obj)),
      param_docstrings = concat\<rparr>"

definition quoted :: "string \<Rightarrow> string" where
  "quoted s = CHR 0x27 # s @ [CHR 0x27]"

definition sample_store :: "(string \<rightharpoonup> (string \<rightharpoonup> unit plot_entry)) option" where
  "sample_store = Some [''matplotlib'' \<mapsto> Map.empty]"

section \<open>Auxiliary facts\<close>

lemmas printer_simps =
  recurse.simps recurse_children.simps node_info.simps adjointlayout_info.simps
  recurse_components.simps ndmapping_info.simps element_info_def padding_def ljust_def
  shift_def

lemma padding_nonempty:
  "items \<noteq> [] \<Longrightarrow> padding items = Inr (Max (set (map length items)))"
  by (cases items) (auto simp: padding_def)

lemma element_info_no_siblings:
  "element_info node siblings level value_dims = element_info node [] level value_dims"
  by (cases siblings) (simp_all add: element_info_def padding_nonempty Let_def)

text \<open>The loop of \<open>recurse\<close> only appends to the lines it starts from.\<close>

lemma recurse_children_acc:
  "recurse_children node todo aps sibs lvl vd lines =
     (case recurse_children node todo aps sibs lvl vd [] of
        Inl e \<Rightarrow> Inl e
      | Inr extra \<Rightarrow> Inr (lines @ extra))"
proof (induction todo arbitrary: lines)
  case Nil
  show ?case by (simp add: recurse_children.simps)
next
  case (Cons p rest)
  show ?case
  proof (cases "get node p")
    case (Inl e)
    then show ?thesis by (simp add: recurse_children.simps)
  next
    case (Inr child)
    show ?thesis
    proof (cases "recurse child (Some p) aps sibs lvl vd")
      case (Inl e)
      with Inr show ?thesis by (simp add: recurse_children.simps)
    next
      case r: (Inr extra)
      have l: "recurse_children node (p # rest) aps sibs lvl vd lines =
                 recurse_children node rest aps sibs lvl vd (lines @ extra)"
        using Inr r by (simp add: recurse_children.simps)
      have e: "recurse_children node (p # rest) aps sibs lvl vd [] =
                 recurse_children node rest aps sibs lvl vd extra"
        using Inr r by (simp add: recurse_children.simps)
      have a: "recurse_children node rest aps sibs lvl vd (lines @ extra) =
                 (case recurse_children node rest aps sibs lvl vd [] of
                    Inl e \<Rightarrow> Inl e
                  | Inr extra' \<Rightarrow> Inr ((lines @ extra) @ extra'))"
        by (rule Cons.IH)
      have b: "recurse_children node rest aps sibs lvl vd extra =
                 (case recurse_children node rest aps sibs lvl vd [] of
                    Inl e \<Rightarrow> Inl e
                  | Inr extra' \<Rightarrow> Inr (extra @ extra'))"
        by (rule Cons.IH)
      show ?thesis
        unfolding l e a b by (simp split: sum.splits)
    qed
  qed
qed

text \<open>Every printer of a node returns at least one line.\<close>

lemma element_info_lines:
  "element_info node siblings level value_dims = Inr (lvl, lines) \<Longrightarrow> lines \<noteq> []"
  by (auto simp: element_info_def Let_def split: if_splits sum.splits)

lemma adjointlayout_info_lines:
  "adjointlayout_info node siblings level value_dims = Inr (lvl, lines) \<Longrightarrow> lines \<noteq> []"
  by (subst (asm) adjointlayout_info.simps) (auto simp: Let_def split: sum.splits)

lemma ndmapping_info_lines:
  "ndmapping_info node siblings level value_dims = Inr (lvl, lines) \<Longrightarrow> lines \<noteq> []"
  by (subst (asm) ndmapping_info.simps) (auto simp: Let_def split: sum.splits if_splits)

lemma node_info_None_lines:
  "node_info node None attrpaths siblings level value_dims = Inr (lvl, lines) \<Longrightarrow> lines \<noteq> []"
  by (subst (asm) node_info.simps)
     (auto split: sum.splits if_splits
           dest: element_info_lines adjointlayout_info_lines ndmapping_info_lines)

text \<open>The attribute path changes the first line of \<open>node_info\<close> and nothing else.\<close>

lemma node_info_Some:
  assumes "attrpaths \<noteq> []"
  shows "node_info node (Some path) attrpaths siblings level value_dims =
     (case node_info node None attrpaths siblings level value_dims of
        Inl e \<Rightarrow> Inl e
      | Inr (lvl, lines) \<Rightarrow>
          Inr (lvl, (fst (hd lines),
                     ''.'' @ ljust path (Max (set (map length attrpaths))) @ '' ''
                       @ snd (hd lines))
                    # tl lines))"
proof -
  define d where "d =
     (if hasattr_children node
      then Inr (level, [(level, component_type node)])
      else if hasattr_main node
      then adjointlayout_info node siblings level value_dims
      else if getattr_deep_indexable_default node
      then ndmapping_info node siblings level value_dims
      else element_info node siblings level value_dims)"
  have n: "node_info node None attrpaths siblings level value_dims = d"
    by (subst node_info.simps, fold d_def) (simp split: sum.splits)
  have s: "node_info node (Some path) attrpaths siblings level value_dims =
     (case d of
        Inl e \<Rightarrow> Inl e
      | Inr (lvl, lines) \<Rightarrow>
         (case lines of
            [] \<Rightarrow> Inl IndexError
          | (fst_lvl, fst_line) # others \<Rightarrow>
              Inr (lvl, (fst_lvl, ''.'' @ ljust path (Max (set (map length attrpaths)))
                                    @ '' '' @ fst_line) # others)))"
    by (subst node_info.simps, fold d_def)
       (simp add: padding_nonempty [OF assms] split: sum.splits)
  show ?thesis
  proof (cases d)
    case (Inl e)
    then show ?thesis unfolding s n by simp
  next
    case (Inr r)
    obtain lvl lines where r: "r = (lvl, lines)" by (cases r)
    have "lines \<noteq> []"
      using Inr r n node_info_None_lines by metis
    then obtain l0 s0 others where "lines = (l0, s0) # others"
      by (cases lines) auto
    then show ?thesis unfolding s n Inr r by simp
  qed
qed

lemma recurse_path_prefix:
  assumes "attrpath \<in> set attrpaths"
    and "recurse node None attrpaths siblings level value_dims = Inr lines"
  shows "\<exists>fst_lvl fst_line others.
           lines = (fst_lvl, fst_line) # others \<and>
           recurse node (Some attrpath) attrpaths siblings level value_dims =
             Inr ((fst_lvl, ''.'' @ ljust attrpath (Max (set (map length attrpaths)))
                              @ '' '' @ fst_line) # others)"
proof -
  have ne: "attrpaths \<noteq> []" using assms(1) by auto
  obtain lvl ls where
    n: "node_info node None attrpaths siblings level value_dims = Inr (lvl, ls)"
    using assms(2) by (subst (asm) recurse.simps) (auto split: sum.splits)
  have "ls \<noteq> []" using n by (rule node_info_None_lines)
  then obtain l0 s0 others where ls: "ls = (l0, s0) # others" by (cases ls) auto
  let ?dec = "(l0, ''.'' @ ljust attrpath (Max (set (map length attrpaths))) @ '' '' @ s0)"
  have s: "node_info node (Some attrpath) attrpaths siblings level value_dims =
             Inr (lvl, ?dec # others)"
    unfolding node_info_Some [OF ne] n ls by simp
  define aps where "aps =
     (if hasattr_children node
      then (case keys node of Inl e \<Rightarrow> Inl e | Inr ks \<Rightarrow> Inr (map (join ''.'') ks))
      else Inr [])"
  obtain aps' where a: "aps = Inr aps'"
    using assms(2) n unfolding aps_def
    by (subst (asm) recurse.simps) (auto split: sum.splits)
  obtain sibs' where g: "get_each node aps' = Inr sibs'"
    using assms(2) n a unfolding aps_def
    by (subst (asm) recurse.simps) (auto split: sum.splits)
  have r0: "recurse_children node aps' aps' sibs' (lvl + 1) value_dims ((l0, s0) # others) =
              Inr lines"
    using assms(2) n a g unfolding aps_def ls
    by (subst (asm) recurse.simps) (auto split: sum.splits)
  then obtain extra where
    m: "recurse_children node aps' aps' sibs' (lvl + 1) value_dims [] = Inr extra"
    and l: "lines = ((l0, s0) # others) @ extra"
    by (subst (asm) recurse_children_acc) (auto split: sum.splits)
  have r1: "recurse_children node aps' aps' sibs' (lvl + 1) value_dims (?dec # others) =
              Inr ((?dec # others) @ extra)"
    by (subst recurse_children_acc) (simp add: m)
  have "recurse node (Some attrpath) attrpaths siblings level value_dims =
              Inr ((?dec # others) @ extra)"
    using s a g r1 unfolding aps_def by (subst recurse.simps) simp
  then show ?thesis using l by simp
qed

lemma group_a_bb:
  assumes g: "g = Obj tn (Some [([''a''], c1), ([''bb''], c2)]) m di kd vd da"
    and r1: "recurse c1 None [''a'', ''bb''] [c1, c2] (level + 1) value_dims =
               Inr ((l1, s1) # r1)"
    and r2: "recurse c2 None [''a'', ''bb''] [c1, c2] (level + 1) value_dims =
               Inr ((l2, s2) # r2)"
  shows "recurse g None attrpaths siblings level value_dims =
           Inr ((level, type_formatter tn) # (l1, ''.a  '' @ s1) # r1
                  @ (l2, ''.bb '' @ s2) # r2)"
proof -
  have p1: "recurse c1 (Some ''a'') [''a'', ''bb''] [c1, c2] (level + 1) value_dims =
              Inr ((l1, ''.a  '' @ s1) # r1)"
    using recurse_path_prefix [of "''a''" "[''a'', ''bb'']", OF _ r1]
    by (simp add: ljust_def)
  have p2: "recurse c2 (Some ''bb'') [''a'', ''bb''] [c1, c2] (level + 1) value_dims =
              Inr ((l2, ''.bb '' @ s2) # r2)"
    using recurse_path_prefix [of "''bb''" "[''a'', ''bb'']", OF _ r2]
    by (simp add: ljust_def)
  show ?thesis
    unfolding g
    using p1 p2
    by (subst recurse.simps) (simp add: node_info.simps recurse_children.simps)
qed

text \<open>Literal search finds exactly the contiguous occurrences of the pattern.\<close>

lemma find_from_sublist: "(find_from pat s i = None) = (\<not> sublist pat s)"
  by (induction s arbitrary: i) (auto simp: sublist_Cons_right)

lemma literal_search_sublist: "(literal_search [] pat s = None) = (\<not> sublist pat s)"
  by (simp add: literal_search_def find_from_sublist)

lemma regexp_filter_iff:
  "regexp_filter re pattern pname p =
     (re_search re [] pattern pname \<noteq> None \<or> re_search re [] pattern (doc p) \<noteq> None)"
  by (simp add: regexp_filter_def Let_def)

lemma params_ParamFilter:
  "params (ParamFilter obj (Some f)) =
     [(k, v) \<leftarrow> Parameterized_params. map_of [(k, v) \<leftarrow> params obj. f k v] k = None]
       @ [(k, v) \<leftarrow> params obj. f k v]"
  by (simp add: ParamFilter_def Let_def new_type_def instantiate_def set_param_def)



section \<open>The pretty printer on mappings and leaves\<close>

text \<open>
  Claim C1, as the code has it.  The claim places the header of a nested mapping at
  the indentation of the outer header and the leaf one level below.  In
  \<open>ndmapping_info\<close> the lines of the last entry are shifted by one level whatever the
  entry is, so for a mapping whose last entry is a mapping whose last entry is a leaf
  element, the inner header stands one level below the outer header and the line of
  the leaf two levels below it.
\<close>

theorem ndmapping_chain_indentation:
  assumes "leaf = Obj tn3 None m3 (Some False) (Some kd3) (Some vd3) da3"
    and "middle = Obj tn2 None m2 (Some True) (Some kd2) vd2 (Some (es2 @ [leaf]))"
    and "outer = Obj tn1 None False (Some True) (Some kd1) vd1 (Some (es1 @ [middle]))"
    and "header1 = type_formatter tn1 @ tab @ ''['' @ join '','' (map name kd1) @ '']''"
    and "header2 = type_formatter tn2 @ tab @ ''['' @ join '','' (map name kd2) @ '']''"
    and "leaf_line = type_formatter tn3
           @ (if kd3 \<noteq> [] then tab @ ''['' @ join '','' (map name kd3) @ '']'' else [])
           @ (if vd3 \<noteq> [] then tab @ ''('' @ join '','' (map name vd3) @ '')'' else [])"
  shows "recurse outer None [] [] level True =
           Inr [(level, header1), (level + 1, header2), (level + 2, leaf_line)] \<and>
         pprint outer =
           Inr (header1 @ [CHR 0x0A] @ tab @ header2 @ [CHR 0x0A] @ tab @ tab @ leaf_line)"
  unfolding assms
  by (simp add: printer_simps pprint_def serialize_def str_times_def Let_def
        eval_nat_numeral Suc_le_eq)

theorem ndmapping_chain_indentation_witness:
  "recurse gridspace None [] [] 0 True =
     Inr [(0, '':GridSpace   [r]''), (1, '':NdLayout   [u,v]''),
          (2, '':Image   [x,y]   (z)'')] \<and>
   pprint gridspace =
     Inr ('':GridSpace   [r]'' @ [CHR 0x0A] @ ''   :NdLayout   [u,v]'' @ [CHR 0x0A]
          @ ''      :Image   [x,y]   (z)'')"
proof -
  have l: "image = Obj ''Image'' None False (Some False)
             (Some [Dimension ''x'', Dimension ''y'']) (Some [Dimension ''z'']) None"
    by (simp add: image_def)
  have m: "ndlayout = Obj ''NdLayout'' None False (Some True)
             (Some [Dimension ''u'', Dimension ''v'']) (Some []) (Some ([curve] @ [image]))"
    by (simp add: ndlayout_def)
  have out: "gridspace = Obj ''GridSpace'' None False (Some True)
             (Some [Dimension ''r'']) (Some []) (Some ([ndlayout] @ [ndlayout]))"
    by (simp add: gridspace_def)
  show ?thesis
    using ndmapping_chain_indentation [OF l m out refl refl refl, where level = 0]
    by (simp add: tab_def type_formatter_def)
qed

text \<open>
  Claim C1 as stated fails: for a map of overlays of curves the overlay's header is at
  level 1, not at the level 0 of the map's header, and the curve's line is at level 2,
  not 1.
\<close>

theorem ndmapping_chain_flat_counterexample:
  "recurse holomap None [] [] 0 True =
     Inr [(0, '':HoloMap   [a]''), (1, '':NdOverlay   [b]''), (2, '':Curve   [x]   (y)'')] \<and>
   recurse holomap None [] [] 0 True \<noteq>
     Inr [(0, '':HoloMap   [a]''), (0, '':NdOverlay   [b]''), (1, '':Curve   [x]   (y)'')]"
  by (simp add: holomap_def overlay_def curve_def printer_simps tab_def type_formatter_def)

text \<open>
  Claim C3 fails on the code.  A mapping whose last entry is \<^verbatim>\<open>None\<close> reaches
  \<open>element_info\<close>, where \<^verbatim>\<open>node.kdims\<close> is read from \<^verbatim>\<open>None\<close>: \<open>pprint\<close> raises
  \<open>AttributeError\<close> for every such mapping, although \<open>component_type\<close> and the test
  \<^verbatim>\<open>last is not None\<close> of \<open>ndmapping_info\<close> both provide for \<^verbatim>\<open>None\<close>.
\<close>

theorem pprint_last_entry_none:
  "pprint (Obj tn None False (Some True) (Some kd) vd (Some (es @ [PyNone]))) =
     Inl AttributeError"
  by (simp add: recurse.simps node_info.simps ndmapping_info.simps element_info_def
        pprint_def)

text \<open>
  Claim C5.  A leaf element (no children, no \<^verbatim>\<open>main\<close>, not deep indexable, with key
  and value dimensions) is printed as one line: the formatted type name, then the
  bracketed key dimensions if there is one, then the parenthesised value dimensions if
  they are asked for and there is one.  \<open>element_info\<close> returns that line, \<open>recurse\<close>
  returns it as the only line, and \<open>pprint\<close>, which asks for value dimensions, returns
  it as the text.
\<close>

theorem element_info_leaf_line:
  assumes "node = Obj tn None False di (Some kd) (Some vd) da"
    and "di \<noteq> Some True"
    and "line = type_formatter tn
           @ (if kd \<noteq> [] then tab @ ''['' @ join '','' (map name kd) @ '']'' else [])
           @ (if value_dims \<and> vd \<noteq> []
              then tab @ ''('' @ join '','' (map name vd) @ '')'' else [])"
  shows "element_info node siblings level value_dims = Inr (level, [(level, line)]) \<and>
         recurse node None attrpaths siblings level value_dims = Inr [(level, line)] \<and>
         (value_dims \<longrightarrow> pprint node = Inr line)"
proof -
  have e: "element_info node sibs lvl value_dims = Inr (lvl, [(lvl, line)])" for sibs lvl
    by (subst element_info_no_siblings)
       (auto simp: assms(1,3) element_info_def Suc_le_eq Let_def)
  have d: "\<not> getattr_deep_indexable_default node"
    using assms(2) unfolding assms(1) by (cases di) auto
  have n: "node_info node None aps sibs lvl value_dims =
             element_info node sibs lvl value_dims" for aps sibs lvl
    using d unfolding assms(1) by (subst node_info.simps) (simp split: sum.splits)
  have r: "recurse node None aps sibs lvl value_dims = Inr [(lvl, line)]" for aps sibs lvl
    by (subst recurse.simps) (simp add: n e, simp add: assms(1) recurse_children.simps)
  have "pprint node = Inr line" if value_dims
    using r [of "[]" "[]" 0] that by (simp add: pprint_def serialize_def str_times_def)
  then show ?thesis using e r by simp
qed

theorem element_info_leaf_line_witness:
  "element_info image [curve, image] 2 True = Inr (2, [(2, '':Image   [x,y]   (z)'')]) \<and>
   recurse image None [] [curve, image] 2 True = Inr [(2, '':Image   [x,y]   (z)'')] \<and>
   pprint image = Inr '':Image   [x,y]   (z)'' \<and>
   element_info image [curve, image] 2 False = Inr (2, [(2, '':Image   [x,y]'')])"
  using
    element_info_leaf_line [OF image_def _ refl, where value_dims = True
      and siblings = "[curve, image]" and level = 2 and attrpaths = "[]"]
    element_info_leaf_line [OF image_def _ refl, where value_dims = False
      and siblings = "[curve, image]" and level = 2 and attrpaths = "[]"]
  by (simp add: tab_def type_formatter_def)

text \<open>
  Claim C6.  A mapping without entries is printed as its header alone, whatever its
  key dimensions are: \<open>ndmapping_info\<close> and \<open>recurse\<close> return one line, and \<open>pprint\<close>
  returns the header as the text, without an error.
\<close>

theorem ndmapping_info_empty:
  assumes "node = Obj tn None False (Some True) (Some kd) vd (Some [])"
    and "header = type_formatter tn @ tab @ ''['' @ join '','' (map name kd) @ '']''"
  shows "ndmapping_info node siblings level value_dims = Inr (level, [(level, header)]) \<and>
         recurse node None [] [] level value_dims = Inr [(level, header)] \<and>
         pprint node = Inr header"
  unfolding assms
  by (simp add: recurse.simps recurse_children.simps node_info.simps ndmapping_info.simps
        pprint_def serialize_def str_times_def)

theorem ndmapping_info_empty_witness:
  "ndmapping_info empty_map [] 0 True = Inr (0, [(0, '':HoloMap   [t,f]'')]) \<and>
   recurse empty_map None [] [] 0 True = Inr [(0, '':HoloMap   [t,f]'')] \<and>
   pprint empty_map = Inr '':HoloMap   [t,f]''"
  using ndmapping_info_empty [OF empty_map_def refl, where siblings = "[]" and level = 0
      and value_dims = True]
  by (simp add: tab_def type_formatter_def)

text \<open>
  Claim C9.  The line of \<open>element_info\<close> is the same for any two lists of siblings:
  the padding is computed from a non-empty list, which cannot fail, and the padded
  string is dropped.
\<close>

theorem element_info_siblings_irrelevant:
  "element_info node siblings level value_dims = element_info node siblings' level value_dims"
  by (subst element_info_no_siblings, subst (2) element_info_no_siblings) (rule refl)

text \<open>
  Claim C10.  When the last entry of a mapping is an object without children and
  without the attribute \<^verbatim>\<open>_deep_indexable\<close>, the lookup
  \<^verbatim>\<open>getattr(last, '_deep_indexable')\<close> of \<open>ndmapping_info\<close> raises \<open>AttributeError\<close>, and
  so does \<open>pprint\<close> of the mapping.  For the same object \<open>node_info\<close> reads the attribute
  with the default \<^verbatim>\<open>False\<close> and goes on to \<open>adjointlayout_info\<close> or \<open>element_info\<close>.
\<close>

theorem ndmapping_info_missing_deep_indexable:
  assumes "last_entry = Obj tn' None m' None kd' vd' da'"
    and "node = Obj tn None False (Some True) (Some kd) vd (Some (es @ [last_entry]))"
  shows "ndmapping_info node siblings level value_dims = Inl AttributeError \<and>
         pprint node = Inl AttributeError \<and>
         getattr_deep_indexable last_entry = Inl AttributeError \<and>
         getattr_deep_indexable_default last_entry = False \<and>
         node_info last_entry None attrpaths siblings level value_dims =
           (if m' then adjointlayout_info last_entry siblings level value_dims
            else element_info last_entry siblings level value_dims)"
proof -
  have a: "ndmapping_info node sibs lvl vdf = Inl AttributeError" for sibs lvl vdf
    unfolding assms by (subst ndmapping_info.simps) simp
  have b: "pprint node = Inl AttributeError"
    using a [of "[]" 0 True] unfolding assms
    by (simp add: pprint_def recurse.simps node_info.simps)
  have c: "node_info last_entry None attrpaths siblings level value_dims =
           (if m' then adjointlayout_info last_entry siblings level value_dims
            else element_info last_entry siblings level value_dims)"
    unfolding assms(1) by (subst node_info.simps) (simp split: sum.splits)
  show ?thesis using a b c by (simp add: assms(1))
qed

theorem ndmapping_info_missing_deep_indexable_witness:
  "ndmapping_info bare_map [] 0 True = Inl AttributeError \<and>
   pprint bare_map = Inl AttributeError \<and>
   node_info bare None [] [] 0 True = Inr (0, [(0, '':Table   [k]   (w)'')])"
proof -
  have m: "bare_map = Obj ''HoloMap'' None False (Some True)
             (Some [Dimension ''a'']) (Some []) (Some ([curve] @ [bare]))"
    by (simp add: bare_map_def)
  show ?thesis
    using ndmapping_info_missing_deep_indexable [OF bare_def m, where siblings = "[]"
        and level = 0 and value_dims = True and attrpaths = "[]"]
    by (simp add: bare_def element_info_def tab_def type_formatter_def)
qed

text \<open>
  Claim C2.  A child of an attribute tree is printed by \<open>recurse\<close> with its attribute
  path, one of the sibling paths.  Compared with the lines printed without the path,
  the first line gets the prefix made of a dot, the path left-justified to the greatest
  length of a sibling path, and a space; the other lines are the same.  For a tree with
  the children \<open>a\<close> and \<open>bb\<close> the block of the first child starts with \<open>.a\<close> and two
  spaces, the block of the second with \<open>.bb\<close> and one space.
\<close>

theorem recurse_path_prefix_decoration:
  "(attrpath \<in> set attrpaths \<longrightarrow>
    recurse node None attrpaths siblings level value_dims = Inr lines \<longrightarrow>
    (\<exists>fst_lvl fst_line others.
       lines = (fst_lvl, fst_line) # others \<and>
       recurse node (Some attrpath) attrpaths siblings level value_dims =
         Inr ((fst_lvl, ''.'' @ ljust attrpath (Max (set (map length attrpaths)))
                          @ '' '' @ fst_line) # others))) \<and>
   (g = Obj tn (Some [([''a''], child_a), ([''bb''], child_b)]) m di kd vd da \<longrightarrow>
    recurse child_a None [''a'', ''bb''] [child_a, child_b] (lvl + 1) vdf = Inr ((lvl_a, line_a) # rest_a) \<longrightarrow>
    recurse child_b None [''a'', ''bb''] [child_a, child_b] (lvl + 1) vdf = Inr ((lvl_b, line_b) # rest_b) \<longrightarrow>
    recurse g None aps sibs lvl vdf =
      Inr ((lvl, type_formatter tn) # (lvl_a, ''.a  '' @ line_a) # rest_a @ (lvl_b, ''.bb '' @ line_b) # rest_b))"
proof (intro conjI impI)
  assume "attrpath \<in> set attrpaths"
    and "recurse node None attrpaths siblings level value_dims = Inr lines"
  then show "\<exists>fst_lvl fst_line others.
       lines = (fst_lvl, fst_line) # others \<and>
       recurse node (Some attrpath) attrpaths siblings level value_dims =
         Inr ((fst_lvl, ''.'' @ ljust attrpath (Max (set (map length attrpaths)))
                          @ '' '' @ fst_line) # others)"
    by (rule recurse_path_prefix)
next
  assume "g = Obj tn (Some [([''a''], child_a), ([''bb''], child_b)]) m di kd vd da"
    and "recurse child_a None [''a'', ''bb''] [child_a, child_b] (lvl + 1) vdf = Inr ((lvl_a, line_a) # rest_a)"
    and "recurse child_b None [''a'', ''bb''] [child_a, child_b] (lvl + 1) vdf = Inr ((lvl_b, line_b) # rest_b)"
  then show "recurse g None aps sibs lvl vdf =
      Inr ((lvl, type_formatter tn) # (lvl_a, ''.a  '' @ line_a) # rest_a @ (lvl_b, ''.bb '' @ line_b) # rest_b)"
    by (rule group_a_bb)
qed

theorem recurse_path_prefix_decoration_witness:
  "recurse holomap (Some ''bb'') [''a'', ''bb''] [curve, holomap] 1 True =
     Inr [(1, ''.bb :HoloMap   [a]''), (2, '':NdOverlay   [b]''),
          (3, '':Curve   [x]   (y)'')] \<and>
   recurse layout None [] [] 0 True =
     Inr [(0, '':Layout''), (1, ''.a  :Curve   [x]   (y)''), (1, ''.bb :HoloMap   [a]''),
          (2, '':NdOverlay   [b]''), (3, '':Curve   [x]   (y)'')]"
proof -
  have c: "recurse curve None [''a'', ''bb''] [curve, holomap] (0 + 1) True =
             Inr ((1, '':Curve   [x]   (y)'') # [])"
    by (simp add: curve_def printer_simps tab_def type_formatter_def)
  have h: "recurse holomap None [''a'', ''bb''] [curve, holomap] (0 + 1) True =
             Inr ((1, '':HoloMap   [a]'')
                  # [(2, '':NdOverlay   [b]''), (3, '':Curve   [x]   (y)'')])"
    by (simp add: holomap_def overlay_def curve_def printer_simps tab_def type_formatter_def)
  have hh: "recurse holomap None [''a'', ''bb''] [curve, holomap] 1 True =
             Inr [(1, '':HoloMap   [a]''), (2, '':NdOverlay   [b]''),
                  (3, '':Curve   [x]   (y)'')]"
    using h by simp
  have i: "''bb'' \<in> set [''a'', ''bb'']" by simp
  note t = recurse_path_prefix_decoration
    [where attrpath = "''bb''" and attrpaths = "[''a'', ''bb'']" and node = holomap
       and siblings = "[curve, holomap]" and level = 1 and value_dims = True
       and g = layout and child_a = curve and child_b = holomap and lvl = 0 and vdf = True
       and aps = "[]" and sibs = "[]"]
  have a: "recurse holomap (Some ''bb'') [''a'', ''bb''] [curve, holomap] 1 True =
     Inr [(1, ''.bb :HoloMap   [a]''), (2, '':NdOverlay   [b]''),
          (3, '':Curve   [x]   (y)'')]"
    using t [THEN conjunct1, rule_format, OF i hh] by (simp add: ljust_def)
  have b: "recurse layout None [] [] 0 True =
     Inr [(0, '':Layout''), (1, ''.a  :Curve   [x]   (y)''), (1, ''.bb :HoloMap   [a]''),
          (2, '':NdOverlay   [b]''), (3, '':Curve   [x]   (y)'')]"
    using t [THEN conjunct2, rule_format, OF layout_def c h]
    by (simp add: type_formatter_def)
  show ?thesis using a b by simp
qed

section \<open>Filtering of parameters\<close>

text \<open>
  Claim C8.  The filter of \<open>regexp_filter\<close> accepts a parameter exactly when the search
  for the pattern, called without flags, finds it in the parameter's name or in its
  documentation string.  For a pattern without metacharacters this is the occurrence of
  the pattern, character by character, in one of the two strings.
\<close>

theorem regexp_filter_name_or_doc:
  "regexp_filter re pattern pname p =
     (re_search re [] pattern pname \<noteq> None \<or> re_search re [] pattern (doc p) \<noteq> None) \<and>
   regexp_filter literal_re pattern pname p = (sublist pattern pname \<or> sublist pattern (doc p))"
  by (simp add: regexp_filter_iff literal_re_def literal_search_sublist)

theorem regexp_filter_name_or_doc_witness:
  "regexp_filter literal_re ''bounds'' ''alpha''
     \<lparr>doc = ''controls bounds'', is_constant = False\<rparr> \<and>
   \<not> regexp_filter literal_re ''zzz'' ''alpha''
     \<lparr>doc = ''controls bounds'', is_constant = False\<rparr>"
  using
    regexp_filter_name_or_doc [where re = literal_re and pattern = "''bounds''"
      and pname = "''alpha''" and p = "\<lparr>doc = ''controls bounds'', is_constant = False\<rparr>"]
    regexp_filter_name_or_doc [where re = literal_re and pattern = "''zzz''"
      and pname = "''alpha''" and p = "\<lparr>doc = ''controls bounds'', is_constant = False\<rparr>"]
  by (simp add: literal_re_def literal_search_def)




text \<open>
  Claim C7.  When the plot class of the object is looked up without an error and
  either no visualization is asked for or no plot class is found, a pattern is given
  and the filtered object has at most one parameter, \<open>info\<close> returns the message that
  names the class and the pattern, and the log of pager calls is as it was.
\<close>

theorem info_no_parameters_matching:
  assumes "lookup_plot_class store backend (class_name obj) = Inr plot_class"
    and "\<not> visualization \<or> plot_class = None"
    and "pattern = Some pat"
    and "length (params (ParamFilter obj (Some (regexp_filter re pat)))) \<le> 1"
  shows "info re repr store new_pager visual_info obj ansi backend visualization pattern log =
           (Inr (''No '' @ repr (class_name obj) @ '' parameters found matching pattern ''
                 @ repr pat), log)"
  using assms by (auto simp: info_def Let_def)

theorem info_no_parameters_matching_witness:
  "info literal_re quoted sample_store sample_pager (\<lambda>obj pc ansi pattern log. (Inr [], log))
     curve_class False ''matplotlib'' True (Some ''zzz'') [] =
     (Inr (''No '' @ quoted ''Curve'' @ '' parameters found matching pattern '' @ quoted ''zzz''),
      [])"
proof -
  have l: "lookup_plot_class sample_store ''matplotlib'' (class_name curve_class) = Inr None"
    by (simp add: lookup_plot_class_def sample_store_def)
  have v: "\<not> True \<or> (None :: unit option) = None" by simp
  have f: "length (params (ParamFilter curve_class (Some (regexp_filter literal_re ''zzz''))))
             \<le> 1"
    by (simp add: params_ParamFilter curve_class_def Parameterized_params_def
          regexp_filter_def literal_re_def literal_search_def)
  show ?thesis
    using info_no_parameters_matching [OF l v refl f, where repr = quoted
        and new_pager = sample_pager and visual_info = "\<lambda>obj pc ansi pattern log. (Inr [], log)"
        and ansi = False and log = "[]"]
    by (simp add: curve_class_def)
qed

end
